theory Spec2Isabelle
  imports Complex_Main
begin

section \<open>RSSA shear device: control and acquisition logic of Final\_v3.py\<close>

text \<open>
  The script keeps its state in module-level globals that three loops share: the
  pulse generator \<^verbatim>\<open>pulse_stepper\<close>, the sampler \<^verbatim>\<open>sensor_acquisition_loop\<close> and the
  Tk callbacks of \<^verbatim>\<open>IntegratedControlApp\<close>. The embedding passes this state
  explicitly. Clock readings and voltages are finite floats and are modelled as
  exact reals (rounding error is outside the model); the sampling interval comes
  from text the operator types, so it is a float that may also be infinite or
  NaN; \<^verbatim>\<open>time.time()\<close> is a parameter of the
  function that reads the clock; a hardware read is a parameter that says, for
  every read of a tick, whether it raised or which voltage it returned.
\<close>

subsection \<open>Reading the ADC: \<^verbatim>\<open>read_sensors\<close>\<close>

text \<open>
  \<^verbatim>\<open>rd k ch\<close> is the outcome of the \<open>k\<close>-th read of the call (counted from 0), made
  on channel \<open>ch\<close>: \<open>None\<close> when \<^verbatim>\<open>AnalogIn(mcp, getattr(MCP, f"P{ch}")).voltage\<close>
  raises, \<open>Some v\<close> when it returns the voltage \<open>v\<close>. The \<^verbatim>\<open>for\<close> loop appends one
  entry per channel to \<^verbatim>\<open>readings\<close>, so the position of a read is the length of
  the list built so far.
\<close>

type_synonym adc = "nat \<Rightarrow> nat \<Rightarrow> real option"

fun read_loop :: "adc \<Rightarrow> nat list \<Rightarrow> real list \<Rightarrow> real list" where
  "read_loop rd [] readings = readings"
| "read_loop rd (ch # channels) readings =
     read_loop rd channels
       (readings @ [case rd (length readings) ch of Some v \<Rightarrow> v | None \<Rightarrow> 0])"

definition read_sensors :: "adc \<Rightarrow> nat list \<Rightarrow> real list" where
  "read_sensors rd channels = read_loop rd channels []"

subsection \<open>Python values the callbacks produce\<close>

text \<open>
  A callback either returns or raises; in both cases the globals keep what was
  assigned before, so both outcomes carry the state.
\<close>

datatype py_error = ValueError | AttributeError | IndexError

datatype 'a outcome = Returns 'a | Raises py_error 'a

text \<open>
  A \<^verbatim>\<open>messagebox\<close> call, with its title and the literal part of its message (the
  text of the exception that an f-string appends is not modelled).
\<close>

datatype dialog = ShowError string string | ShowWarning string string

text \<open>
  A float as \<^verbatim>\<open>float(text)\<close> can return it: a finite value, an infinity or NaN
  (\<^verbatim>\<open>float('inf')\<close>, \<^verbatim>\<open>float('-inf')\<close> and \<^verbatim>\<open>float('nan')\<close> all parse). Every
  comparison with NaN is false. \<open>float_le_zero x\<close> is \<^verbatim>\<open>x <= 0\<close>; \<open>float_ge e x\<close> is
  \<^verbatim>\<open>e >= x\<close> for a finite \<open>e\<close>.
\<close>

datatype pyfloat = Finite real | PosInf | NegInf | NaN

fun float_le_zero :: "pyfloat \<Rightarrow> bool" where
  "float_le_zero (Finite x) = (x \<le> 0)"
| "float_le_zero PosInf = False"
| "float_le_zero NegInf = True"
| "float_le_zero NaN = False"

fun float_ge :: "real \<Rightarrow> pyfloat \<Rightarrow> bool" where
  "float_ge e (Finite x) = (e \<ge> x)"
| "float_ge e PosInf = False"
| "float_ge e NegInf = True"
| "float_ge e NaN = False"

text \<open>\<^verbatim>\<open>round(x, ndigits)\<close> on a float: to the nearest multiple of \<open>10^-ndigits\<close>, ties to even.\<close>

definition round_half_even :: "real \<Rightarrow> int" where
  "round_half_even y =
     (let f = \<lfloor>y\<rfloor>; d = y - of_int f
      in if d < 1 / 2 then f else if 1 / 2 < d then f + 1
         else if even f then f else f + 1)"

definition py_round :: "real \<Rightarrow> nat \<Rightarrow> real" where
  "py_round x ndigits = of_int (round_half_even (x * 10 ^ ndigits)) / 10 ^ ndigits"

text \<open>\<^verbatim>\<open>str(n)\<close> for a non-negative integer, as the f-string \<^verbatim>\<open>f'Ch{ch} Voltage (V)'\<close> prints it.\<close>

definition digit_char :: "nat \<Rightarrow> char" where
  "digit_char d = ''0123456789'' ! d"

function str_nat :: "nat \<Rightarrow> string" where
  "str_nat n =
     (if n < 10 then [digit_char n]
      else str_nat (n div 10) @ [digit_char (n mod 10)])"
  by pat_completeness auto
termination
  by (relation "measure (\<lambda>n. n)") auto

subsection \<open>CSV rows, file objects and the disk\<close>

text \<open>
  A row is the list that \<^verbatim>\<open>csv_writer.writerow\<close> receives. A file object opened for
  writing holds the rows written and not yet flushed; \<^verbatim>\<open>flush\<close> and \<^verbatim>\<open>close\<close> move them
  to the disk, which maps a file name to the rows that would survive a crash.
  File objects live in a store and are referred to by their index, since
  \<^verbatim>\<open>output_file\<close> and \<^verbatim>\<open>csv_writer\<close> are two references that may or may not name the
  same object.
\<close>

datatype cell = Text string | Num real

type_synonym row = "cell list"

record file_obj =
  path :: string
  pending :: "row list"
  closed :: bool

record sensor_state =
  selected_channels :: "nat list"
  delta_t :: pyfloat
  start_time :: real
  sensor_time :: "real list"
  sensor_voltages :: "real list list"
  is_recording :: bool
  output_file :: "nat option"
  csv_writer :: "nat option"
  last_reading_time :: real
  file_objs :: "file_obj list"
  disk :: "string \<rightharpoonup> row list"
  channel_vars :: "int list"
  interval_entry :: string
  record_button :: "string \<times> string"
  file_label :: string
  dialogs :: "dialog list"

text \<open>
  The globals of lines 53--64 and the widgets of \<^verbatim>\<open>setup_sensor_controls\<close> that hold
  data: \<open>sensor_time\<close> and \<open>sensor_voltages\<close> are the two lists of \<^verbatim>\<open>sensor_data\<close>,
  \<open>channel_vars\<close> the eight \<^verbatim>\<open>IntVar\<close>s of the check boxes, \<open>interval_entry\<close> the text of
  the entry field, \<open>record_button\<close> the text and colour of the recording button.
  The plot (lines, legend, canvas) and \<^verbatim>\<open>print\<close> are not modelled. \<open>t0\<close> is the clock
  at import, \<open>d\<close> the disk the program finds.
\<close>

definition init_sensor :: "real \<Rightarrow> (string \<rightharpoonup> row list) \<Rightarrow> sensor_state" where
  "init_sensor t0 d =
     \<lparr>selected_channels = [0], delta_t = Finite 0.1, start_time = t0, sensor_time = [],
      sensor_voltages = [], is_recording = False, output_file = None, csv_writer = None,
      last_reading_time = 0, file_objs = [], disk = d,
      channel_vars = [1, 0, 0, 0, 0, 0, 0, 0], interval_entry = ''0.1'',
      record_button = (''Start Recording'', ''green''),
      file_label = ''Output File: Not selected'', dialogs = []\<rparr>"

definition on_disk :: "sensor_state \<Rightarrow> string \<Rightarrow> row list" where
  "on_disk s name = (case disk s name of None \<Rightarrow> [] | Some rows \<Rightarrow> rows)"

text \<open>
  \<open>is_open h s\<close>: the reference \<open>h\<close> names a file object that is not closed. Writing
  to or flushing a closed file raises \<^verbatim>\<open>ValueError\<close> in Python.
\<close>

definition is_open :: "nat \<Rightarrow> sensor_state \<Rightarrow> bool" where
  "is_open h s = (h < length (file_objs s) \<and> \<not> closed (file_objs s ! h))"

definition file_write :: "nat \<Rightarrow> row \<Rightarrow> sensor_state \<Rightarrow> sensor_state" where
  "file_write h r s =
     (let f = file_objs s ! h
      in s\<lparr>file_objs := (file_objs s)[h := f\<lparr>pending := pending f @ [r]\<rparr>]\<rparr>)"

definition file_flush :: "nat \<Rightarrow> sensor_state \<Rightarrow> sensor_state" where
  "file_flush h s =
     (let f = file_objs s ! h
      in s\<lparr>disk := (disk s)(path f \<mapsto> on_disk s (path f) @ pending f),
           file_objs := (file_objs s)[h := f\<lparr>pending := []\<rparr>]\<rparr>)"

text \<open>\<^verbatim>\<open>f.close()\<close>: flushes and closes; closing a closed file does nothing.\<close>

definition file_close :: "nat \<Rightarrow> sensor_state \<Rightarrow> sensor_state" where
  "file_close h s =
     (if is_open h s then
        (let s1 = file_flush h s
         in s1\<lparr>file_objs := (file_objs s1)[h := (file_objs s1 ! h)\<lparr>closed := True\<rparr>]\<rparr>)
      else s)"

text \<open>\<^verbatim>\<open>open(filename, 'w', newline='')\<close> when it succeeds: the file is created or
  truncated, and a new file object is allocated; the result is its reference.\<close>

definition file_open :: "string \<Rightarrow> sensor_state \<Rightarrow> nat \<times> sensor_state" where
  "file_open filename s =
     (length (file_objs s),
      s\<lparr>disk := (disk s)(filename \<mapsto> []),
        file_objs := file_objs s @ [\<lparr>path = filename, pending = [], closed = False\<rparr>]\<rparr>)"

text \<open>\<^verbatim>\<open>csv_writer.writerow(r)\<close> and \<^verbatim>\<open>output_file.flush()\<close> on the globals.\<close>

definition writerow :: "row \<Rightarrow> sensor_state \<Rightarrow> sensor_state outcome" where
  "writerow r s =
     (case csv_writer s of
        None \<Rightarrow> Raises AttributeError s
      | Some h \<Rightarrow> if is_open h s then Returns (file_write h r s) else Raises ValueError s)"

definition flush_output :: "sensor_state \<Rightarrow> sensor_state outcome" where
  "flush_output s =
     (case output_file s of
        None \<Rightarrow> Raises AttributeError s
      | Some h \<Rightarrow> if is_open h s then Returns (file_flush h s) else Raises ValueError s)"

text \<open>\<^verbatim>\<open>['Time (s)'] + [f'Ch{ch} Voltage (V)' for ch in selected_channels]\<close>\<close>

definition header :: "nat list \<Rightarrow> row" where
  "header channels =
     Text ''Time (s)'' # map (\<lambda>ch. Text (''Ch'' @ str_nat ch @ '' Voltage (V)'')) channels"

text \<open>
  A data row, as the sampler writes it, starts with a number (the elapsed time); a
  header row starts with the text \<^verbatim>\<open>Time (s)\<close>.
\<close>

fun data_row :: "row \<Rightarrow> bool" where
  "data_row (Num x # cells) = True"
| "data_row r = False"

subsection \<open>Sensor callbacks of \<^verbatim>\<open>IntegratedControlApp\<close>\<close>

text \<open>
  \<^verbatim>\<open>update_selected_channels\<close> (lines 277--284). \<^verbatim>\<open>channel_vars[0]\<close> raises
  \<^verbatim>\<open>IndexError\<close> on an empty list; the application always has eight variables.
\<close>

definition update_selected_channels :: "sensor_state \<Rightarrow> sensor_state outcome" where
  "update_selected_channels s =
     (let s1 = s\<lparr>selected_channels :=
                  map fst (filter (\<lambda>(i, var). var = 1) (enumerate 0 (channel_vars s)))\<rparr>
      in if selected_channels s1 = [] then
           (let s2 = s1\<lparr>dialogs := dialogs s1 @
                       [ShowWarning ''Channel Selection'' ''At least one channel must be selected'']\<rparr>
            in if channel_vars s2 = [] then Raises IndexError s2
               else Returns (s2\<lparr>channel_vars := (channel_vars s2)[0 := 1],
                                selected_channels := [0]\<rparr>))
         else Returns s1)"

text \<open>
  \<^verbatim>\<open>update_acquisition_interval\<close> (lines 295--305). \<open>py_float\<close> is Python's \<^verbatim>\<open>float\<close> on
  the entry's text (\<open>None\<close> when it raises \<^verbatim>\<open>ValueError\<close>; the result may be infinite
  or NaN), \<open>py_str\<close> is \<^verbatim>\<open>str\<close> on a float. Both raises of the \<^verbatim>\<open>try\<close> block end in the same handler.
\<close>

definition update_acquisition_interval ::
  "(string \<Rightarrow> pyfloat option) \<Rightarrow> (pyfloat \<Rightarrow> string) \<Rightarrow> sensor_state \<Rightarrow> sensor_state" where
  "update_acquisition_interval py_float py_str s =
     (let handler = s\<lparr>dialogs := dialogs s @
                        [ShowError ''Invalid Interval'' ''Please enter a valid positive number: ''],
                      interval_entry := py_str (delta_t s)\<rparr>
      in case py_float (interval_entry s) of
           None \<Rightarrow> handler
         | Some new_delta \<Rightarrow>
             if float_le_zero new_delta then handler else s\<lparr>delta_t := new_delta\<rparr>)"

text \<open>
  \<^verbatim>\<open>browse_output_file\<close> (lines 343--365). \<open>filename\<close> is what the save dialog
  returns (empty when cancelled), \<open>opens\<close> says whether \<^verbatim>\<open>open\<close> succeeds. Every
  exception inside the \<^verbatim>\<open>try\<close> is caught: the handler reports it and sets
  \<^verbatim>\<open>output_file = None\<close>.
\<close>

definition browse_handler :: "sensor_state \<Rightarrow> sensor_state" where
  "browse_handler s =
     s\<lparr>dialogs := dialogs s @ [ShowError ''File Error'' ''Could not open file: ''],
       output_file := None\<rparr>"

definition browse_output_file :: "string \<Rightarrow> bool \<Rightarrow> sensor_state \<Rightarrow> sensor_state" where
  "browse_output_file filename opens s =
     (if filename \<noteq> [] then
        (let s1 = (case output_file s of Some h \<Rightarrow> file_close h s | None \<Rightarrow> s)
         in if \<not> opens then browse_handler s1
            else
              (let (h, s2) = file_open filename s1;
                   s3 = s2\<lparr>output_file := Some h\<rparr>;
                   s4 = s3\<lparr>csv_writer := Some h\<rparr>;
                   s5 = s4\<lparr>file_label := ''Output File: '' @ filename\<rparr>
               in if is_recording s5 then
                    (case writerow (header (selected_channels s5)) s5 of
                       Raises e s6 \<Rightarrow> browse_handler s6
                     | Returns s6 \<Rightarrow>
                         (case flush_output s6 of
                            Raises e s7 \<Rightarrow> browse_handler s7
                          | Returns s7 \<Rightarrow> s7))
                  else s5))
      else s)"

text \<open>
  \<^verbatim>\<open>toggle_recording\<close> (lines 318--341). \<open>now\<close> is \<^verbatim>\<open>time.time()\<close> at line 328;
  \<open>filename\<close> and \<open>opens\<close> are handed to \<^verbatim>\<open>browse_output_file\<close> when it is called.
\<close>

definition toggle_recording ::
  "real \<Rightarrow> string \<Rightarrow> bool \<Rightarrow> sensor_state \<Rightarrow> sensor_state outcome" where
  "toggle_recording now filename opens s =
     (if \<not> is_recording s then
        (let s1 = (if output_file s = None then browse_output_file filename opens s else s)
         in if output_file s = None \<and> output_file s1 = None then Returns s1
            else
              (let s2 = s1\<lparr>start_time := now\<rparr>;
                   s3 = s2\<lparr>sensor_time := [], sensor_voltages := []\<rparr>
               in case writerow (header (selected_channels s3)) s3 of
                    Raises e s4 \<Rightarrow> Raises e s4
                  | Returns s4 \<Rightarrow>
                      (case flush_output s4 of
                         Raises e s5 \<Rightarrow> Raises e s5
                       | Returns s5 \<Rightarrow>
                           Returns (s5\<lparr>is_recording := True,
                                      record_button := (''Stop Recording'', ''red'')\<rparr>))))
      else Returns (s\<lparr>is_recording := False,
                      record_button := (''Start Recording'', ''green'')\<rparr>))"

text \<open>\<^verbatim>\<open>clear_plot_data\<close> (lines 367--374), without the plot.\<close>

definition clear_plot_data :: "sensor_state \<Rightarrow> sensor_state" where
  "clear_plot_data s = s\<lparr>sensor_time := [], sensor_voltages := []\<rparr>"

subsection \<open>The sampler: \<^verbatim>\<open>sensor_acquisition_loop\<close>\<close>

text \<open>
  One pass through the body of the \<^verbatim>\<open>while\<close> loop (lines 119--140), with
  \<open>current_time\<close> the clock read at line 119 and \<open>rd\<close> the outcomes of the reads of
  this pass. An exception inside the \<^verbatim>\<open>try\<close> is caught and printed: what was
  assigned before stays, the rest of the block (the update of
  \<^verbatim>\<open>last_reading_time\<close> included) is skipped.
\<close>

definition acquisition_pass :: "adc \<Rightarrow> real \<Rightarrow> sensor_state \<Rightarrow> sensor_state" where
  "acquisition_pass rd current_time s =
     (let elapsed_time = current_time - last_reading_time s
      in if float_ge elapsed_time (delta_t s) then
           (let readings = read_sensors rd (selected_channels s);
                current_time_relative = current_time - start_time s;
                s1 = s\<lparr>sensor_time := sensor_time s @ [py_round current_time_relative 3]\<rparr>;
                s2 = s1\<lparr>sensor_voltages := sensor_voltages s1 @ [readings]\<rparr>
            in if is_recording s2 \<and> output_file s2 \<noteq> None \<and> csv_writer s2 \<noteq> None then
                 (let r = Num (py_round current_time_relative 3) #
                            map (\<lambda>v. Num (py_round v 3)) readings
                  in case writerow r s2 of
                       Raises e s3 \<Rightarrow> s3
                     | Returns s3 \<Rightarrow>
                         (case flush_output s3 of
                            Raises e s4 \<Rightarrow> s4
                          | Returns s4 \<Rightarrow> s4\<lparr>last_reading_time := current_time\<rparr>))
               else s2\<lparr>last_reading_time := current_time\<rparr>)
         else s)"

text \<open>
  The loop itself: line 116 sets \<^verbatim>\<open>last_reading_time\<close>, then one pass per clock
  reading until \<^verbatim>\<open>stop_acquisition\<close> is seen; \<open>ticks\<close> lists the passes made before
  that, each with its clock and its reads.
\<close>

fun acquisition_passes :: "(real \<times> adc) list \<Rightarrow> sensor_state \<Rightarrow> sensor_state" where
  "acquisition_passes [] s = s"
| "acquisition_passes ((t, rd) # ticks) s = acquisition_passes ticks (acquisition_pass rd t s)"

definition sensor_acquisition_loop ::
  "real \<Rightarrow> (real \<times> adc) list \<Rightarrow> sensor_state \<Rightarrow> sensor_state" where
  "sensor_acquisition_loop t_start ticks s =
     acquisition_passes ticks (s\<lparr>last_reading_time := t_start\<rparr>)"

text \<open>
  This relation between the two references holds in every state the callbacks
  reach: while \<^verbatim>\<open>output_file\<close> is set, it is open and \<^verbatim>\<open>csv_writer\<close> writes to it.
\<close>

definition writer_ok :: "sensor_state \<Rightarrow> bool" where
  "writer_ok s =
     (case output_file s of
        None \<Rightarrow> True
      | Some h \<Rightarrow> csv_writer s = Some h \<and> is_open h s)"


subsection \<open>The sensor side as the event loop sees it\<close>

text \<open>
  What the operator and the sampler thread can do to the sensor state: click the
  check box of a channel (the box flips between 0 and 1, then its command
  \<^verbatim>\<open>update_selected_channels\<close> runs), edit the interval entry, press one of the
  buttons, or let the sampler begin and make a pass. Tk reports an exception
  raised by a callback and goes on with the globals as they are, so the next event
  starts from the state the outcome carries.
\<close>

datatype sensor_event =
  ClickChannel nat | TypeInterval string | UpdateInterval
  | ToggleRecording real string bool | BrowseOutputFile string bool | ClearPlotData
  | SamplerStart real | SamplerPass adc real

fun state_of :: "'a outcome \<Rightarrow> 'a" where
  "state_of (Returns s) = s"
| "state_of (Raises e s) = s"

fun sensor_event_step ::
  "(string \<Rightarrow> pyfloat option) \<Rightarrow> (pyfloat \<Rightarrow> string) \<Rightarrow> sensor_state \<Rightarrow> sensor_event \<Rightarrow> sensor_state"
where
  "sensor_event_step py_float py_str s (ClickChannel i) =
     (if i < length (channel_vars s) then
        state_of (update_selected_channels
          (s\<lparr>channel_vars := (channel_vars s)[i := (if channel_vars s ! i = 1 then 0 else 1)]\<rparr>))
      else s)"
| "sensor_event_step py_float py_str s (TypeInterval txt) = s\<lparr>interval_entry := txt\<rparr>"
| "sensor_event_step py_float py_str s UpdateInterval =
     update_acquisition_interval py_float py_str s"
| "sensor_event_step py_float py_str s (ToggleRecording now filename opens) =
     state_of (toggle_recording now filename opens s)"
| "sensor_event_step py_float py_str s (BrowseOutputFile filename opens) =
     browse_output_file filename opens s"
| "sensor_event_step py_float py_str s ClearPlotData = clear_plot_data s"
| "sensor_event_step py_float py_str s (SamplerStart t) = s\<lparr>last_reading_time := t\<rparr>"
| "sensor_event_step py_float py_str s (SamplerPass rd t) = acquisition_pass rd t s"

definition sensor_run ::
  "(string \<Rightarrow> pyfloat option) \<Rightarrow> (pyfloat \<Rightarrow> string) \<Rightarrow> sensor_state \<Rightarrow> sensor_event list \<Rightarrow> sensor_state"
where
  "sensor_run py_float py_str s events = foldl (sensor_event_step py_float py_str) s events"

text \<open>
  Two states of an example session: the operator has browsed to \<^verbatim>\<open>out.csv\<close>; then
  recording has been started at clock 10.
\<close>

definition example_idle :: sensor_state where
  "example_idle = browse_output_file ''out.csv'' True (init_sensor 0 Map.empty)"

definition example_recording :: sensor_state where
  "example_recording = state_of (toggle_recording 10 [] False example_idle)"

subsection \<open>The motor: globals, pins and pulse threads\<close>

text \<open>
  The globals of lines 44--50, the three GPIO lines (\<open>True\<close> is \<^verbatim>\<open>GPIO.HIGH\<close>), the
  two widgets the callbacks read, and the pulse threads ever created. A thread
  runs \<^verbatim>\<open>pulse_stepper\<close>; what matters of it is where it stands: about to test
  \<^verbatim>\<open>while stepper_running\<close>, inside the loop body (having read the clock at line
  94), or returned. \<^verbatim>\<open>pulse_thread\<close> refers to a thread by its index.
\<close>

datatype thread_pc = AtWhile | InBody real | Finished

record motor_state =
  stepper_running :: bool
  current_direction :: string
  current_speed :: real
  pulse_thread :: "nat option"
  last_step_time :: real
  step_history :: "real list"
  enable_pin :: bool
  direction_pin :: bool
  step_pin :: bool
  selected_direction :: string
  scaleSpeed :: int
  threads :: "thread_pc list"

definition init_motor :: motor_state where
  "init_motor =
     \<lparr>stepper_running = False, current_direction = ''Stop'', current_speed = 0,
      pulse_thread = None, last_step_time = 0, step_history = [],
      enable_pin = True, direction_pin = False, step_pin = False,
      selected_direction = ''Stop'', scaleSpeed = 0, threads = []\<rparr>"

subsection \<open>The pulse generator: \<^verbatim>\<open>pulse_stepper\<close>\<close>

text \<open>
  \<^verbatim>\<open>step_interval = 0.02 / (current_speed / 100.0)\<close> followed by
  \<^verbatim>\<open>step_interval = max(step_interval, 0.001)\<close>, computed when \<^verbatim>\<open>current_speed > 0\<close>.
\<close>

definition step_interval :: "real \<Rightarrow> real" where
  "step_interval speed = max (0.02 / (speed / 100.0)) 0.001"

text \<open>\<^verbatim>\<open>step_history.append(now)\<close> on a \<^verbatim>\<open>deque(maxlen=100)\<close>: a full deque drops its oldest entry.\<close>

definition history_append :: "real \<Rightarrow> real list \<Rightarrow> real list" where
  "history_append now h = (if length h < 100 then h @ [now] else tl h @ [now])"

text \<open>
  The body of the \<^verbatim>\<open>while\<close> loop (lines 94--111) for the clock reading \<open>now\<close>. A pulse
  raises the step line, records \<open>now\<close>, busy-waits 0.5 ms and lowers the line; at
  speed 0 the body only sleeps.
\<close>

definition pulse_body :: "real \<Rightarrow> motor_state \<Rightarrow> motor_state" where
  "pulse_body now m =
     (if current_speed m > 0 then
        (if now - last_step_time m \<ge> step_interval (current_speed m) then
           m\<lparr>step_history := history_append now (step_history m),
             step_pin := False, last_step_time := now\<rparr>
         else m)
      else m)"

text \<open>
  One scheduling step of thread \<open>t\<close>: at the loop head it tests the flag and either
  enters the body, reading the clock, or returns; inside the body it completes the
  iteration and is back at the loop head.
\<close>

definition thread_step :: "nat \<Rightarrow> real \<Rightarrow> motor_state \<Rightarrow> motor_state" where
  "thread_step t now m =
     (if t < length (threads m) then
        (case threads m ! t of
           AtWhile \<Rightarrow>
             (if stepper_running m then m\<lparr>threads := (threads m)[t := InBody now]\<rparr>
              else m\<lparr>threads := (threads m)[t := Finished]\<rparr>)
         | InBody n \<Rightarrow> (pulse_body n m)\<lparr>threads := (threads m)[t := AtWhile]\<rparr>
         | Finished \<Rightarrow> m)
      else m)"

text \<open>
  \<^verbatim>\<open>pulse_thread.join()\<close>: the caller waits until thread \<open>t\<close> has returned. The only
  call (line 392) follows \<^verbatim>\<open>stepper_running = False\<close> on the thread that alone
  sets the flag, so \<open>t\<close> completes the iteration it is in, if any, reads the flag
  as false and returns.
\<close>

definition join_thread :: "nat \<Rightarrow> motor_state \<Rightarrow> motor_state" where
  "join_thread t m =
     (if t < length (threads m) then
        (case threads m ! t of
           AtWhile \<Rightarrow> m\<lparr>threads := (threads m)[t := Finished]\<rparr>
         | InBody n \<Rightarrow> (pulse_body n m)\<lparr>threads := (threads m)[t := Finished]\<rparr>
         | Finished \<Rightarrow> m)
      else m)"

text \<open>The pulse loops that have not returned.\<close>

definition active_loops :: "motor_state \<Rightarrow> nat list" where
  "active_loops m = filter (\<lambda>t. threads m ! t \<noteq> Finished) [0..<length (threads m)]"

subsection \<open>Motor callbacks of \<^verbatim>\<open>IntegratedControlApp\<close>\<close>

text \<open>\<^verbatim>\<open>update_speed\<close> (lines 376--378), called by the scale with its new value.\<close>

definition update_speed :: "int \<Rightarrow> motor_state \<Rightarrow> motor_state" where
  "update_speed speed m = m\<lparr>current_speed := of_int speed\<rparr>"

text \<open>
  \<^verbatim>\<open>stop_motor\<close> (lines 407--411). The function declares only \<^verbatim>\<open>stepper_running\<close>
  global, so its assignment to \<^verbatim>\<open>current_direction\<close> is to a local name.
\<close>

definition stop_motor :: "motor_state \<Rightarrow> motor_state" where
  "stop_motor m = m\<lparr>stepper_running := False, enable_pin := True\<rparr>"

text \<open>\<^verbatim>\<open>apply_direction\<close> (lines 380--405).\<close>

definition apply_direction :: "motor_state \<Rightarrow> motor_state" where
  "apply_direction m =
     (let direction = selected_direction m; speed = scaleSpeed m
      in if direction = ''Stop'' then stop_motor m
         else
           (let m1 = (if stepper_running m then
                        (let m0 = m\<lparr>stepper_running := False\<rparr>
                         in case pulse_thread m0 of
                              Some t \<Rightarrow> join_thread t m0
                            | None \<Rightarrow> m0)
                      else m);
                m2 = (if direction = ''Forward'' then
                        m1\<lparr>direction_pin := True, current_direction := ''Forward''\<rparr>
                      else if direction = ''Reverse'' then
                        m1\<lparr>direction_pin := False, current_direction := ''Reverse''\<rparr>
                      else m1);
                m3 = m2\<lparr>enable_pin := False\<rparr>
            in if speed > 0 then
                 m3\<lparr>stepper_running := True,
                    pulse_thread := Some (length (threads m3)),
                    threads := threads m3 @ [AtWhile]\<rparr>
               else m3))"

text \<open>
  What the operator and the scheduler can do to the motor state: move the scale
  (which calls \<^verbatim>\<open>update_speed\<close>), pick a direction in the combo box, press one of
  the two buttons, or let a pulse thread run one step.
\<close>

datatype motor_event =
  MoveScale int | SelectDirection string | ApplyDirection | EmergencyStop
  | ThreadStep nat real

fun motor_event_step :: "motor_state \<Rightarrow> motor_event \<Rightarrow> motor_state" where
  "motor_event_step m (MoveScale v) = update_speed v (m\<lparr>scaleSpeed := v\<rparr>)"
| "motor_event_step m (SelectDirection d) = m\<lparr>selected_direction := d\<rparr>"
| "motor_event_step m ApplyDirection = apply_direction m"
| "motor_event_step m EmergencyStop = stop_motor m"
| "motor_event_step m (ThreadStep t now) = thread_step t now m"

definition motor_run :: "motor_event list \<Rightarrow> motor_state" where
  "motor_run events = foldl motor_event_step init_motor events"

subsection \<open>The motor line of \<^verbatim>\<open>update_status\<close>\<close>

text \<open>
  Lines 415--424: the three values the status line shows (state, speed,
  steps/sec), before they are formatted into \<^verbatim>\<open>motor_text\<close>. When the motor is not
  running the text is the literal \<^verbatim>\<open>"Motor Status: Stopped | Speed: 0 | Steps/sec: 0"\<close>.
\<close>

definition update_status_motor :: "motor_state \<Rightarrow> string \<times> real \<times> real" where
  "update_status_motor m =
     (if stepper_running m then
        (let steps_per_sec =
               (if length (step_history m) > 1 then
                  (let time_span = last (step_history m) - hd (step_history m)
                   in if time_span > 0 then (real (length (step_history m)) - 1) / time_span
                      else 0)
                else 0)
         in (current_direction m, current_speed m, steps_per_sec))
      else (''Stopped'', 0, 0))"

definition steps_per_sec_shown :: "motor_state \<Rightarrow> real" where
  "steps_per_sec_shown m = snd (snd (update_status_motor m))"

subsection \<open>Example runs and state predicates used below\<close>

text \<open>
  The steps/sec rule in the words of the specification, as a function of the
  buffer alone, to be compared with what \<^verbatim>\<open>update_status\<close> shows.
\<close>

definition spec_steps_per_sec :: "real list \<Rightarrow> real" where
  "spec_steps_per_sec buffer =
     (if 2 \<le> length buffer \<and> 0 < last buffer - hd buffer
      then (real (length buffer) - 1) / (last buffer - hd buffer) else 0)"

text \<open>
  A run of the motor: full speed forward, three pulses at clock 1, 1.1 and 1.2,
  then the emergency stop.
\<close>

definition stopped_after_pulses :: motor_state where
  "stopped_after_pulses =
     motor_run [MoveScale 100, SelectDirection ''Forward'', ApplyDirection,
       ThreadStep 0 1, ThreadStep 0 1, ThreadStep 0 1.1, ThreadStep 0 1.1,
       ThreadStep 0 1.2, ThreadStep 0 1.2, EmergencyStop]"

text \<open>
  Another run: forward at speed 50; the pulse thread enters an iteration; the
  operator presses the emergency stop and applies the reverse direction before the
  thread tests the flag again.
\<close>

definition restart_after_stop :: motor_state where
  "restart_after_stop =
     motor_run [MoveScale 50, SelectDirection ''Forward'', ApplyDirection, ThreadStep 0 1,
       EmergencyStop, SelectDirection ''Reverse'', ApplyDirection]"

text \<open>
  \<open>one_loop\<close>: every pulse thread that has not returned is the one \<^verbatim>\<open>pulse_thread\<close>
  refers to, and the flag is set. \<open>stop_free m events\<close>: started in \<open>m\<close>, the events never
  call \<^verbatim>\<open>stop_motor\<close> (no emergency stop, no \<^verbatim>\<open>apply_direction\<close> with the direction
  \<^verbatim>\<open>Stop\<close>).
\<close>

definition one_loop :: "motor_state \<Rightarrow> bool" where
  "one_loop m =
     list_all (\<lambda>t. threads m ! t = Finished \<or> (stepper_running m \<and> pulse_thread m = Some t))
       [0..<length (threads m)]"

fun calls_stop_motor :: "motor_state \<Rightarrow> motor_event \<Rightarrow> bool" where
  "calls_stop_motor m EmergencyStop = True"
| "calls_stop_motor m ApplyDirection = (selected_direction m = ''Stop'')"
| "calls_stop_motor m ev = False"

fun stop_free :: "motor_state \<Rightarrow> motor_event list \<Rightarrow> bool" where
  "stop_free m [] = True"
| "stop_free m (ev # events) =
     (\<not> calls_stop_motor m ev \<and> stop_free (motor_event_step m ev) events)"

section \<open>Properties\<close>

lemma read_loop_length:
  "length (read_loop rd channels readings) = length readings + length channels"
  by (induction channels arbitrary: readings) simp_all

lemma read_loop_nth_old:
  "k < length readings \<Longrightarrow> read_loop rd channels readings ! k = readings ! k"
  by (induction channels arbitrary: readings) (simp_all add: nth_append)

lemma read_loop_nth_new:
  "k < length channels \<Longrightarrow>
   read_loop rd channels readings ! (length readings + k) =
     (case rd (length readings + k) (channels ! k) of Some v \<Rightarrow> v | None \<Rightarrow> 0)"
proof (induction channels arbitrary: readings k)
  case Nil
  then show ?case by simp
next
  case (Cons ch channels)
  show ?case
  proof (cases k)
    case 0
    then show ?thesis
      using read_loop_nth_old [of "length readings" "readings @ [case rd (length readings) ch of Some v \<Rightarrow> v | None \<Rightarrow> 0]" rd channels]
      by simp
  next
    case (Suc j)
    with Cons.prems have "j < length channels" by simp
    from Cons.IH [OF this, of "readings @ [case rd (length readings) ch of Some v \<Rightarrow> v | None \<Rightarrow> 0]"]
    show ?thesis using Suc by simp
  qed
qed

lemma read_sensors_nth:
  "k < length channels \<Longrightarrow>
   read_sensors rd channels ! k = (case rd k (channels ! k) of Some v \<Rightarrow> v | None \<Rightarrow> 0)"
  using read_loop_nth_new [of k channels rd "[]"] by (simp add: read_sensors_def)

lemma read_sensors_length: "length (read_sensors rd channels) = length channels"
  by (simp add: read_sensors_def read_loop_length)

lemma pass_voltages:
  "float_ge (current_time - last_reading_time s) (delta_t s) \<Longrightarrow>
   sensor_voltages (acquisition_pass rd current_time s) =
     sensor_voltages s @ [read_sensors rd (selected_channels s)]"
  by (simp add: acquisition_pass_def Let_def writerow_def flush_output_def file_write_def
      file_flush_def split: option.splits)

lemma interval_unclamped: "0 < s \<Longrightarrow> s \<le> 100 \<Longrightarrow> step_interval s = 2 / s"
  unfolding step_interval_def by (simp add: field_simps max_def)

subsection \<open>C1: the pulse period\<close>

text \<open>
  C1. For every speed \<open>s\<close> in (0,100] the period \<^verbatim>\<open>pulse_stepper\<close> computes is
  \<open>max(0.001, 0.02/(s/100))\<close>; the clamp at 0.001 does not change it; a larger speed
  up to 100 gives a strictly smaller period; and a running pulse loop whose
  \<^verbatim>\<open>current_speed\<close> is \<open>s\<close> issues a pulse exactly when that period has passed since
  the last one.
\<close>

theorem pulse_period:
  assumes "0 < s" and "s \<le> 100"
  shows "step_interval s = max 0.001 (0.02 / (s / 100)) \<and>
     step_interval s = 0.02 / (s / 100) \<and>
     (\<forall>s'. s < s' \<and> s' \<le> 100 \<longrightarrow> step_interval s' < step_interval s) \<and>
     (\<forall>m now. current_speed m = s \<longrightarrow>
        pulse_body now m =
          (if now - last_step_time m \<ge> max 0.001 (0.02 / (s / 100)) then
             m\<lparr>step_history := history_append now (step_history m),
               step_pin := False, last_step_time := now\<rparr>
           else m))"
proof -
  have u: "step_interval s = 2 / s" using assms by (rule interval_unclamped)
  have a: "step_interval s = max 0.001 (0.02 / (s / 100))"
    by (simp add: step_interval_def max.commute)
  have b: "step_interval s = 0.02 / (s / 100)"
    using u by simp
  have c: "\<forall>s'. s < s' \<and> s' \<le> 100 \<longrightarrow> step_interval s' < step_interval s"
  proof (intro allI impI, elim conjE)
    fix s' :: real
    assume s': "s < s'" "s' \<le> 100"
    then have "step_interval s' = 2 / s'" using assms by (intro interval_unclamped) simp_all
    moreover have "2 / s' < 2 / s" using assms s' by (simp add: frac_less2)
    ultimately show "step_interval s' < step_interval s" using u by simp
  qed
  have d: "\<forall>m now. current_speed m = s \<longrightarrow>
        pulse_body now m =
          (if now - last_step_time m \<ge> max 0.001 (0.02 / (s / 100)) then
             m\<lparr>step_history := history_append now (step_history m),
               step_pin := False, last_step_time := now\<rparr>
           else m)"
    using assms a by (simp add: pulse_body_def)
  from a b c d show ?thesis by blast
qed

theorem pulse_period_witness:
  "(0::real) < 50 \<and> (50::real) \<le> 100 \<and> step_interval 50 = 0.04 \<and>
   step_interval 100 < step_interval 50 \<and>
   last_step_time (pulse_body 1 (init_motor\<lparr>current_speed := 50\<rparr>)) = 1 \<and>
   last_step_time (pulse_body 0.03 (init_motor\<lparr>current_speed := 50\<rparr>)) = 0"
  using pulse_period [of 50] by (simp add: init_motor_def)

subsection \<open>C10: one reading per channel, in order\<close>

text \<open>
  C10. For every list of channels, \<^verbatim>\<open>read_sensors\<close> returns as many readings as
  there are channels, and the reading at position \<open>k\<close> is that of the channel at
  position \<open>k\<close>: its voltage, or 0.0 when its read raised. The empty list gives the
  empty list.
\<close>

theorem read_sensors_positions:
  "length (read_sensors rd channels) = length channels \<and>
   (\<forall>k<length channels.
      read_sensors rd channels ! k = (case rd k (channels ! k) of Some v \<Rightarrow> v | None \<Rightarrow> 0)) \<and>
   read_sensors rd [] = []"
  by (simp add: read_sensors_length read_sensors_nth) (simp add: read_sensors_def)

theorem read_sensors_positions_witness:
  "length (read_sensors (\<lambda>k ch. if ch = 3 then None else Some (real ch / 2)) [0, 3, 5]) = 3 \<and>
   read_sensors (\<lambda>k ch. if ch = 3 then None else Some (real ch / 2)) [0, 3, 5] ! 0 = 0 \<and>
   read_sensors (\<lambda>k ch. if ch = 3 then None else Some (real ch / 2)) [0, 3, 5] ! 1 = 0 \<and>
   read_sensors (\<lambda>k ch. if ch = 3 then None else Some (real ch / 2)) [0, 3, 5] ! 2 = 5 / 2"
  using read_sensors_positions [of "\<lambda>k ch. if ch = 3 then None else Some (real ch / 2)" "[0, 3, 5]"]
  by (simp add: read_sensors_def)

subsection \<open>C6: a failed read stays local\<close>

text \<open>
  C6. If the read of the channel at position \<open>j\<close> raises, the reading at \<open>j\<close> is 0.0
  and the call still returns one reading per channel; every other position holds
  what its own read returned, and holds the same value as it would if the read at
  \<open>j\<close> had returned any voltage \<open>v\<close> instead of raising. The sampling pass that is
  due goes on and appends these readings to the series.
\<close>

theorem failed_read_isolated:
  assumes "j < length channels" and "rd j (channels ! j) = None"
  shows "read_sensors rd channels ! j = 0 \<and>
    length (read_sensors rd channels) = length channels \<and>
    (\<forall>k<length channels. k \<noteq> j \<longrightarrow>
       read_sensors rd channels ! k = (case rd k (channels ! k) of Some v \<Rightarrow> v | None \<Rightarrow> 0) \<and>
       (\<forall>v. read_sensors (rd(j := (rd j)(channels ! j \<mapsto> v))) channels ! k =
            read_sensors rd channels ! k)) \<and>
    (\<forall>s t. selected_channels s = channels \<and> float_ge (t - last_reading_time s) (delta_t s) \<longrightarrow>
       sensor_voltages (acquisition_pass rd t s) = sensor_voltages s @ [read_sensors rd channels])"
  using assms by (auto simp add: read_sensors_length read_sensors_nth pass_voltages)

theorem failed_read_isolated_witness:
  "(1::nat) < length [2, 4, 6 :: nat] \<and>
   (\<lambda>k ch. if ch = 4 then None else Some (real ch)) 1 ([2, 4, 6] ! 1) = None \<and>
   read_sensors (\<lambda>k ch. if ch = 4 then None else Some (real ch)) [2, 4, 6] = [2, 0, 6] \<and>
   read_sensors ((\<lambda>k ch. if ch = 4 then None else Some (real ch))
       (1 := ((\<lambda>k ch. if ch = 4 then None else Some (real ch)) 1)([2, 4, 6] ! 1 \<mapsto> 9)))
     [2, 4, 6] = [2, 9, 6] \<and>
   sensor_voltages (acquisition_pass (\<lambda>k ch. if ch = 4 then None else Some (real ch)) 1
       ((init_sensor 0 Map.empty)\<lparr>selected_channels := [2, 4, 6]\<rparr>)) = [[2, 0, 6]]"
  using failed_read_isolated [of 1 "[2, 4, 6]" "\<lambda>k ch. if ch = 4 then None else Some (real ch)"]
  by (simp add: read_sensors_def acquisition_pass_def init_sensor_def Let_def)

lemma update_selected_channels_result:
  assumes "channel_vars s \<noteq> []"
  shows "\<exists>s'. update_selected_channels s = Returns s' \<and> selected_channels s' \<noteq> [] \<and>
     length (channel_vars s') = length (channel_vars s) \<and>
     ((\<forall>var\<in>set (channel_vars s). var \<noteq> 1) \<longrightarrow>
        selected_channels s' = [0] \<and> channel_vars s' = (channel_vars s)[0 := 1])"
proof (cases "\<forall>var\<in>set (channel_vars s). var \<noteq> 1")
  case True
  then have "filter (\<lambda>(i, var). var = 1) (enumerate 0 (channel_vars s)) = []"
    by (auto simp add: filter_empty_conv in_set_enumerate_eq)
  with assms show ?thesis by (simp add: update_selected_channels_def Let_def)
next
  case False
  then obtain i where "i < length (channel_vars s)" "channel_vars s ! i = 1"
    by (auto simp add: in_set_conv_nth)
  then have "(i, 1) \<in> set (enumerate 0 (channel_vars s))"
    by (auto simp add: in_set_enumerate_eq)
  then have "filter (\<lambda>(i, var). var = 1) (enumerate 0 (channel_vars s)) \<noteq> []"
    by (auto simp add: filter_empty_conv)
  with False show ?thesis by (auto simp add: update_selected_channels_def Let_def)
qed

lemma file_ops_selection:
  "selected_channels (file_close h s) = selected_channels s"
  "channel_vars (file_close h s) = channel_vars s"
  "channel_vars (file_flush h s) = channel_vars s"
  "channel_vars (file_write h r s) = channel_vars s"
  "selected_channels (file_flush h s) = selected_channels s"
  "selected_channels (file_write h r s) = selected_channels s"
  by (simp_all add: file_close_def file_flush_def file_write_def Let_def)

lemma browse_selection:
  "selected_channels (browse_output_file filename opens s) = selected_channels s \<and>
   channel_vars (browse_output_file filename opens s) = channel_vars s"
  by (simp add: browse_output_file_def browse_handler_def file_open_def writerow_def
      flush_output_def file_ops_selection Let_def split: option.splits)

lemma toggle_selection:
  "selected_channels (state_of (toggle_recording now filename opens s)) = selected_channels s \<and>
   channel_vars (state_of (toggle_recording now filename opens s)) = channel_vars s"
  by (simp add: toggle_recording_def writerow_def flush_output_def file_ops_selection
      browse_selection Let_def split: option.splits)

lemma pass_selection:
  "selected_channels (acquisition_pass rd t s) = selected_channels s \<and>
   channel_vars (acquisition_pass rd t s) = channel_vars s"
  by (simp add: acquisition_pass_def writerow_def flush_output_def file_ops_selection
      Let_def split: option.splits)

lemma selection_event:
  assumes "channel_vars s \<noteq> []" and "selected_channels s \<noteq> []"
  shows "channel_vars (sensor_event_step py_float py_str s ev) \<noteq> [] \<and>
         selected_channels (sensor_event_step py_float py_str s ev) \<noteq> []"
proof (cases ev)
  case (ClickChannel i)
  show ?thesis
  proof (cases "i < length (channel_vars s)")
    case False
    with assms ClickChannel show ?thesis by simp
  next
    case True
    let ?u = "s\<lparr>channel_vars := (channel_vars s)[i := (if channel_vars s ! i = 1 then 0 else 1)]\<rparr>"
    have "channel_vars ?u \<noteq> []" using assms(1) by simp
    from update_selected_channels_result [OF this]
    obtain s' where "update_selected_channels ?u = Returns s'" "selected_channels s' \<noteq> []"
      "length (channel_vars s') = length (channel_vars ?u)"
      by blast
    with True ClickChannel assms(1) show ?thesis by auto
  qed
next
  case UpdateInterval
  with assms show ?thesis
    by (simp add: update_acquisition_interval_def Let_def split: option.splits)
qed (use assms in \<open>simp_all add: browse_selection toggle_selection pass_selection
      clear_plot_data_def\<close>)

lemma selection_run:
  "channel_vars s \<noteq> [] \<Longrightarrow> selected_channels s \<noteq> [] \<Longrightarrow>
   selected_channels (sensor_run py_float py_str s events) \<noteq> []"
  unfolding sensor_run_def
  by (induction events arbitrary: s) (simp_all add: selection_event)

subsection \<open>C4: the selection is never empty\<close>

text \<open>
  C4. \<^verbatim>\<open>update_selected_channels\<close>, the callback of every check box, returns with a
  non-empty \<^verbatim>\<open>selected_channels\<close>; when no box is ticked, channel 0 is ticked again
  and the selection is exactly \<open>[0]\<close>. (The application has eight boxes; the
  statement needs one.) No other callback assigns the selection, so it is
  non-empty after every sequence of operator actions and sampler passes.
\<close>

theorem selection_never_empty:
  "(channel_vars s \<noteq> [] \<longrightarrow>
     (\<exists>s'. update_selected_channels s = Returns s' \<and> selected_channels s' \<noteq> [] \<and>
        ((\<forall>var\<in>set (channel_vars s). var \<noteq> 1) \<longrightarrow>
           selected_channels s' = [0] \<and> channel_vars s' = (channel_vars s)[0 := 1]))) \<and>
   selected_channels (sensor_run py_float py_str (init_sensor t0 d) events) \<noteq> []"
proof
  show "channel_vars s \<noteq> [] \<longrightarrow>
     (\<exists>s'. update_selected_channels s = Returns s' \<and> selected_channels s' \<noteq> [] \<and>
        ((\<forall>var\<in>set (channel_vars s). var \<noteq> 1) \<longrightarrow>
           selected_channels s' = [0] \<and> channel_vars s' = (channel_vars s)[0 := 1]))"
    using update_selected_channels_result [of s] by blast
  show "selected_channels (sensor_run py_float py_str (init_sensor t0 d) events) \<noteq> []"
    by (rule selection_run) (simp_all add: init_sensor_def)
qed

theorem selection_never_empty_witness:
  "channel_vars (init_sensor 0 Map.empty) \<noteq> [] \<and>
   selected_channels (sensor_run (\<lambda>t. None) (\<lambda>x. []) (init_sensor 0 Map.empty)
      [ClickChannel 3, ClickChannel 0, ClickChannel 3]) = [0] \<and>
   channel_vars (sensor_run (\<lambda>t. None) (\<lambda>x. []) (init_sensor 0 Map.empty)
      [ClickChannel 3, ClickChannel 0, ClickChannel 3]) = [1, 0, 0, 0, 0, 0, 0, 0] \<and>
   selected_channels (sensor_run (\<lambda>t. None) (\<lambda>x. []) (init_sensor 0 Map.empty)
      [ClickChannel 3, ClickChannel 0]) = [3] \<and>
   update_selected_channels ((init_sensor 0 Map.empty)\<lparr>channel_vars := [0, 0, 0, 0, 0, 0, 0, 0]\<rparr>) =
     Returns ((init_sensor 0 Map.empty)
       \<lparr>dialogs := [ShowWarning ''Channel Selection'' ''At least one channel must be selected'']\<rparr>)"
  using selection_never_empty [of "(init_sensor 0 Map.empty)\<lparr>channel_vars := [0, 0, 0, 0, 0, 0, 0, 0]\<rparr>"
      "\<lambda>t. None" "\<lambda>x. []" 0 Map.empty "[ClickChannel 3, ClickChannel 0, ClickChannel 3]"]
  by (simp add: init_sensor_def sensor_run_def update_selected_channels_def Let_def)

subsection \<open>C9: the sampling interval\<close>

text \<open>
  What \<^verbatim>\<open>update_acquisition_interval\<close> does with each kind of entry: when the text
  does not parse, or parses as a value \<open>\<le> 0\<close>, it leaves \<^verbatim>\<open>delta_t\<close> as it was, shows
  an error dialog and resets the entry to \<^verbatim>\<open>str(delta_t)\<close>, changing nothing else;
  in every other case the parsed value becomes \<^verbatim>\<open>delta_t\<close> and nothing else
  changes. The other cases are the positive values and NaN.
\<close>

lemma interval_update_cases:
  "((case py_float (interval_entry s) of None \<Rightarrow> True | Some v \<Rightarrow> float_le_zero v) \<longrightarrow>
      update_acquisition_interval py_float py_str s =
        s\<lparr>dialogs := dialogs s @
             [ShowError ''Invalid Interval'' ''Please enter a valid positive number: ''],
          interval_entry := py_str (delta_t s)\<rparr> \<and>
      delta_t (update_acquisition_interval py_float py_str s) = delta_t s) \<and>
   (\<forall>v. py_float (interval_entry s) = Some v \<and> \<not> float_le_zero v \<longrightarrow>
      update_acquisition_interval py_float py_str s = s\<lparr>delta_t := v\<rparr>)"
  by (auto simp add: update_acquisition_interval_def Let_def split: option.splits)

lemma interval_update_positive:
  "py_float (interval_entry s) = Some (Finite v) \<Longrightarrow> 0 < v \<Longrightarrow>
   update_acquisition_interval py_float py_str s = s\<lparr>delta_t := Finite v\<rparr>"
  by (simp add: update_acquisition_interval_def Let_def)

lemma pass_never_due: "delta_t s = NaN \<Longrightarrow> acquisition_pass rd t s = s"
  by (simp add: acquisition_pass_def Let_def)

text \<open>
  C9. The claim has every entry that is not a positive number rejected, with the
  prior interval kept and an error reported. The text \<^verbatim>\<open>nan\<close> parses
  (\<^verbatim>\<open>float('nan')\<close>) and \<^verbatim>\<open>nan <= 0\<close> is false, so the \<^verbatim>\<open>raise\<close> of line 300 is
  skipped: NaN becomes \<^verbatim>\<open>delta_t\<close>, no dialog is shown and the entry is not reset.
  From then on \<^verbatim>\<open>elapsed_time >= delta_t\<close> is false in every pass, so the sampler
  takes no reading.
\<close>

theorem interval_nan_accepted:
  assumes "py_float (interval_entry s) = Some NaN"
  shows "update_acquisition_interval py_float py_str s = s\<lparr>delta_t := NaN\<rparr> \<and>
     delta_t (update_acquisition_interval py_float py_str s) = NaN \<and>
     dialogs (update_acquisition_interval py_float py_str s) = dialogs s \<and>
     interval_entry (update_acquisition_interval py_float py_str s) = interval_entry s \<and>
     (\<forall>rd t. acquisition_pass rd t (update_acquisition_interval py_float py_str s) =
        update_acquisition_interval py_float py_str s)"
proof -
  have u: "update_acquisition_interval py_float py_str s = s\<lparr>delta_t := NaN\<rparr>"
    using assms by (simp add: update_acquisition_interval_def Let_def)
  have "acquisition_pass rd t (s\<lparr>delta_t := NaN\<rparr>) = s\<lparr>delta_t := NaN\<rparr>" for rd t
    by (rule pass_never_due) simp
  with u show ?thesis by simp
qed

theorem interval_nan_accepted_witness:
  "(\<lambda>txt. if txt = ''nan'' then Some NaN else None)
     (interval_entry ((init_sensor 0 Map.empty)\<lparr>interval_entry := ''nan''\<rparr>)) = Some NaN \<and>
   delta_t (update_acquisition_interval (\<lambda>txt. if txt = ''nan'' then Some NaN else None)
     (\<lambda>x. ''0.1'') ((init_sensor 0 Map.empty)\<lparr>interval_entry := ''nan''\<rparr>)) = NaN \<and>
   dialogs (update_acquisition_interval (\<lambda>txt. if txt = ''nan'' then Some NaN else None)
     (\<lambda>x. ''0.1'') ((init_sensor 0 Map.empty)\<lparr>interval_entry := ''nan''\<rparr>)) = [] \<and>
   interval_entry (update_acquisition_interval (\<lambda>txt. if txt = ''nan'' then Some NaN else None)
     (\<lambda>x. ''0.1'') ((init_sensor 0 Map.empty)\<lparr>interval_entry := ''nan''\<rparr>)) = ''nan'' \<and>
   sensor_voltages (acquisition_pass (\<lambda>k ch. Some 1) 100
     (update_acquisition_interval (\<lambda>txt. if txt = ''nan'' then Some NaN else None)
       (\<lambda>x. ''0.1'') ((init_sensor 0 Map.empty)\<lparr>interval_entry := ''nan''\<rparr>))) = []"
proof -
  let ?f = "\<lambda>txt. if txt = ''nan'' then Some NaN else None"
  let ?s = "(init_sensor 0 Map.empty)\<lparr>interval_entry := ''nan''\<rparr>"
  let ?u = "update_acquisition_interval ?f (\<lambda>x. ''0.1'') ?s"
  have h: "?f (interval_entry ?s) = Some NaN" by simp
  from interval_nan_accepted [of ?f ?s "\<lambda>x. ''0.1''"] h
  have a: "delta_t ?u = NaN" and b: "dialogs ?u = dialogs ?s"
    and c: "interval_entry ?u = interval_entry ?s"
    and d: "acquisition_pass (\<lambda>k ch. Some 1) 100 ?u = ?u"
    and e: "?u = ?s\<lparr>delta_t := NaN\<rparr>"
    by blast+
  have "sensor_voltages (acquisition_pass (\<lambda>k ch. Some 1) 100 ?u) = []"
    unfolding d unfolding e by (simp add: init_sensor_def)
  with h a b c show ?thesis by (simp add: init_sensor_def)
qed

lemma writer_okD:
  "writer_ok s \<Longrightarrow> output_file s = Some h \<Longrightarrow>
   csv_writer s = Some h \<and> is_open h s \<and> h < length (file_objs s)"
  by (simp add: writer_ok_def is_open_def)

lemma start_with_sink:
  assumes "\<not> is_recording s" and "output_file s = Some h" and "writer_ok s"
  shows "toggle_recording now filename opens s =
     Returns ((file_flush h (file_write h (header (selected_channels s))
        (s\<lparr>start_time := now, sensor_time := [], sensor_voltages := []\<rparr>)))
          \<lparr>is_recording := True, record_button := (''Stop Recording'', ''red'')\<rparr>)"
  using assms
  by (simp add: toggle_recording_def writer_ok_def writerow_def flush_output_def is_open_def
      file_write_def Let_def)

lemma flush_write_disk:
  assumes "h < length (file_objs s)"
  shows "on_disk (file_flush h (file_write h r s)) (path (file_objs s ! h)) =
           on_disk s (path (file_objs s ! h)) @ pending (file_objs s ! h) @ [r]"
    and "pending (file_objs (file_flush h (file_write h r s)) ! h) = []"
    and "is_open h (file_flush h (file_write h r s)) = is_open h s"
    and "path (file_objs (file_flush h (file_write h r s)) ! h) = path (file_objs s ! h)"
  using assms
  by (simp_all add: on_disk_def file_flush_def file_write_def Let_def is_open_def)

lemma flush_write_frame:
  "selected_channels (file_flush h (file_write h r s)) = selected_channels s"
  "start_time (file_flush h (file_write h r s)) = start_time s"
  "sensor_time (file_flush h (file_write h r s)) = sensor_time s"
  "sensor_voltages (file_flush h (file_write h r s)) = sensor_voltages s"
  "is_recording (file_flush h (file_write h r s)) = is_recording s"
  "output_file (file_flush h (file_write h r s)) = output_file s"
  "csv_writer (file_flush h (file_write h r s)) = csv_writer s"
  "delta_t (file_flush h (file_write h r s)) = delta_t s"
  "last_reading_time (file_flush h (file_write h r s)) = last_reading_time s"
  "length (file_objs (file_flush h (file_write h r s))) = length (file_objs s)"
  by (simp_all add: file_flush_def file_write_def Let_def)



lemmas file_defs = browse_output_file_def file_open_def file_close_def file_flush_def
  file_write_def writerow_def flush_output_def is_open_def on_disk_def writer_ok_def
  toggle_recording_def header_def digit_char_def init_sensor_def Let_def

lemma example_idle_eq:
  "example_idle = (init_sensor 0 Map.empty)
     \<lparr>disk := [''out.csv'' \<mapsto> []],
      file_objs := [\<lparr>path = ''out.csv'', pending = [], closed = False\<rparr>],
      output_file := Some 0, csv_writer := Some 0,
      file_label := ''Output File: out.csv''\<rparr>"
  by (simp add: example_idle_def file_defs)

lemma example_recording_eq:
  "example_recording = example_idle
     \<lparr>start_time := 10,
      disk := [''out.csv'' \<mapsto> [[Text ''Time (s)'', Text ''Ch0 Voltage (V)'']]],
      is_recording := True, record_button := (''Stop Recording'', ''red'')\<rparr>"
  by (simp add: example_recording_def example_idle_eq file_defs)

subsection \<open>C5: starting and stopping a recording\<close>



lemma round_half_even_near: "\<bar>of_int (round_half_even y) - y\<bar> \<le> 1 / 2"
proof -
  have "of_int \<lfloor>y\<rfloor> \<le> y" "y < of_int \<lfloor>y\<rfloor> + 1" by linarith+
  then show ?thesis by (auto simp add: round_half_even_def Let_def)
qed

lemma py_round3:
  "py_round x 3 = of_int (round_half_even (x * 1000)) / 1000 \<and> \<bar>py_round x 3 - x\<bar> \<le> 1 / 2000"
proof -
  have "\<bar>of_int (round_half_even (x * 1000)) - x * 1000\<bar> \<le> 1 / 2"
    by (rule round_half_even_near)
  then show ?thesis by (simp add: py_round_def field_simps abs_le_iff)
qed

lemma pass_recording:
  assumes "writer_ok s" and "is_recording s" and "output_file s = Some h"
    and "float_ge (t - last_reading_time s) (delta_t s)"
  shows "acquisition_pass rd t s =
     (file_flush h (file_write h
        (Num (py_round (t - start_time s) 3) #
           map (\<lambda>v. Num (py_round v 3)) (read_sensors rd (selected_channels s)))
        (s\<lparr>sensor_time := sensor_time s @ [py_round (t - start_time s) 3],
           sensor_voltages := sensor_voltages s @ [read_sensors rd (selected_channels s)]\<rparr>)))
       \<lparr>last_reading_time := t\<rparr>"
  using assms writer_okD [of s h]
  by (simp add: acquisition_pass_def Let_def writerow_def flush_output_def is_open_def
      file_write_def)

lemma pass_idle:
  "\<not> is_recording s \<Longrightarrow>
   disk (acquisition_pass rd t s) = disk s \<and> file_objs (acquisition_pass rd t s) = file_objs s"
  by (simp add: acquisition_pass_def Let_def)

subsection \<open>C8: the rows the sampler writes\<close>

text \<open>
  C8. A sampling pass that is due while recording, with the output file open,
  appends to the file exactly one row: the elapsed time followed by one voltage
  per selected channel, each value rounded to 3 decimals (a multiple of 0.001 at
  most 0.0005 away). When the pass ends the row is on the disk and nothing written
  is left unflushed.
\<close>

theorem recorded_row_flushed:
  assumes "writer_ok s" and "is_recording s" and "output_file s = Some h"
    and "float_ge (t - last_reading_time s) (delta_t s)"
  shows "on_disk (acquisition_pass rd t s) (path (file_objs s ! h)) =
           on_disk s (path (file_objs s ! h)) @ pending (file_objs s ! h) @
             [Num (py_round (t - start_time s) 3) #
              map (\<lambda>v. Num (py_round v 3)) (read_sensors rd (selected_channels s))] \<and>
         pending (file_objs (acquisition_pass rd t s) ! h) = [] \<and>
         length (Num (py_round (t - start_time s) 3) #
              map (\<lambda>v. Num (py_round v 3)) (read_sensors rd (selected_channels s))) =
           1 + length (selected_channels s) \<and>
         (\<forall>x. py_round x 3 = of_int (round_half_even (x * 1000)) / 1000 \<and>
              \<bar>py_round x 3 - x\<bar> \<le> 1 / 2000)"
proof -
  let ?r = "Num (py_round (t - start_time s) 3) #
              map (\<lambda>v. Num (py_round v 3)) (read_sensors rd (selected_channels s))"
  let ?s2 = "s\<lparr>sensor_time := sensor_time s @ [py_round (t - start_time s) 3],
           sensor_voltages := sensor_voltages s @ [read_sensors rd (selected_channels s)]\<rparr>"
  have h: "h < length (file_objs ?s2)" using writer_okD [OF assms(1) assms(3)] by simp
  have p: "acquisition_pass rd t s = (file_flush h (file_write h ?r ?s2))\<lparr>last_reading_time := t\<rparr>"
    using assms by (rule pass_recording)
  have a: "on_disk (acquisition_pass rd t s) (path (file_objs s ! h)) =
           on_disk s (path (file_objs s ! h)) @ pending (file_objs s ! h) @ [?r]"
    using flush_write_disk(1) [OF h, of ?r] by (simp add: p on_disk_def)
  have b: "pending (file_objs (acquisition_pass rd t s) ! h) = []"
    using flush_write_disk(2) [OF h, of ?r] by (simp add: p)
  have c: "length ?r = 1 + length (selected_channels s)"
    by (simp add: read_sensors_length)
  from a b c py_round3 show ?thesis by blast
qed

theorem recorded_row_flushed_witness:
  "writer_ok example_recording \<and> is_recording example_recording \<and>
   output_file example_recording = Some 0 \<and>
   float_ge (10.1234 - last_reading_time example_recording) (delta_t example_recording) \<and>
   on_disk (acquisition_pass (\<lambda>k ch. Some 1.23456) 10.1234 example_recording) ''out.csv'' =
     [[Text ''Time (s)'', Text ''Ch0 Voltage (V)''], [Num 0.123, Num 1.235]] \<and>
   pending (file_objs (acquisition_pass (\<lambda>k ch. Some 1.23456) 10.1234 example_recording) ! 0) = []"
proof -
  have h: "writer_ok example_recording" "is_recording example_recording"
    "output_file example_recording = Some 0"
    "float_ge (10.1234 - last_reading_time example_recording) (delta_t example_recording)"
    by (simp_all add: example_recording_eq example_idle_eq init_sensor_def writer_ok_def is_open_def)
  have r: "py_round (10.1234 - 10) 3 = 0.123" "py_round 1.23456 3 = 1.235"
    by (simp_all add: py_round_def round_half_even_def Let_def)
  from recorded_row_flushed [OF h, of "\<lambda>k ch. Some 1.23456"] r
  have "on_disk (acquisition_pass (\<lambda>k ch. Some 1.23456) 10.1234 example_recording) ''out.csv'' =
     [[Text ''Time (s)'', Text ''Ch0 Voltage (V)''], [Num 0.123, Num 1.235]] \<and>
   pending (file_objs (acquisition_pass (\<lambda>k ch. Some 1.23456) 10.1234 example_recording) ! 0) = []"
    by (simp add: example_recording_eq example_idle_eq init_sensor_def on_disk_def read_sensors_def)
  with h show ?thesis by simp
qed

lemma pass_rows:
  assumes "writer_ok s" and "output_file s = Some h" and "pending (file_objs s ! h) = []"
  shows "\<exists>rows. list_all data_row rows \<and>
     on_disk (acquisition_pass rd t s) (path (file_objs s ! h)) =
       on_disk s (path (file_objs s ! h)) @ rows \<and>
     writer_ok (acquisition_pass rd t s) \<and> output_file (acquisition_pass rd t s) = Some h \<and>
     pending (file_objs (acquisition_pass rd t s) ! h) = [] \<and>
     path (file_objs (acquisition_pass rd t s) ! h) = path (file_objs s ! h) \<and>
     is_recording (acquisition_pass rd t s) = is_recording s \<and>
     selected_channels (acquisition_pass rd t s) = selected_channels s"
proof -
  note w = writer_okD [OF assms(1) assms(2)]
  consider (wait) "\<not> float_ge (t - last_reading_time s) (delta_t s)"
    | (idle) "float_ge (t - last_reading_time s) (delta_t s)" "\<not> is_recording s"
    | (rec) "float_ge (t - last_reading_time s) (delta_t s)" "is_recording s"
    by blast
  then show ?thesis
  proof cases
    case wait
    then have "acquisition_pass rd t s = s" by (simp add: acquisition_pass_def Let_def)
    with assms show ?thesis by (intro exI [of _ "[]"]) simp
  next
    case idle
    then have "acquisition_pass rd t s =
      s\<lparr>sensor_time := sensor_time s @ [py_round (t - start_time s) 3],
        sensor_voltages := sensor_voltages s @ [read_sensors rd (selected_channels s)],
        last_reading_time := t\<rparr>"
      by (simp add: acquisition_pass_def Let_def)
    with assms show ?thesis
      by (intro exI [of _ "[]"]) (simp add: writer_ok_def is_open_def on_disk_def)
  next
    case rec
    let ?r = "Num (py_round (t - start_time s) 3) #
              map (\<lambda>v. Num (py_round v 3)) (read_sensors rd (selected_channels s))"
    let ?s2 = "s\<lparr>sensor_time := sensor_time s @ [py_round (t - start_time s) 3],
           sensor_voltages := sensor_voltages s @ [read_sensors rd (selected_channels s)]\<rparr>"
    have h: "h < length (file_objs ?s2)" using w by simp
    have p: "acquisition_pass rd t s = (file_flush h (file_write h ?r ?s2))\<lparr>last_reading_time := t\<rparr>"
      using assms(1) rec(2) assms(2) rec(1) by (rule pass_recording)
    have a: "on_disk (acquisition_pass rd t s) (path (file_objs s ! h)) =
           on_disk s (path (file_objs s ! h)) @ [?r]"
      using flush_write_disk(1) [OF h, of ?r] assms(3) by (simp add: p on_disk_def)
    have b: "pending (file_objs (acquisition_pass rd t s) ! h) = []"
      using flush_write_disk(2) [OF h, of ?r] by (simp add: p)
    have c: "path (file_objs (acquisition_pass rd t s) ! h) = path (file_objs s ! h)"
      using flush_write_disk(4) [OF h, of ?r] by (simp add: p)
    have d: "is_open h (acquisition_pass rd t s)"
      using flush_write_disk(3) [OF h, of ?r] w by (simp add: p is_open_def)
    have e: "output_file (acquisition_pass rd t s) = Some h"
      "csv_writer (acquisition_pass rd t s) = Some h"
      "is_recording (acquisition_pass rd t s) = is_recording s"
      "selected_channels (acquisition_pass rd t s) = selected_channels s"
      using assms(2) w by (simp_all add: p flush_write_frame)
    have f: "writer_ok (acquisition_pass rd t s)"
      using d e by (simp add: writer_ok_def)
    show ?thesis
      using a b c e f by (intro exI [of _ "[?r]"]) simp
  qed
qed

lemma passes_rows:
  assumes "writer_ok s" and "output_file s = Some h" and "pending (file_objs s ! h) = []"
  shows "\<exists>rows. list_all data_row rows \<and>
     on_disk (acquisition_passes ticks s) (path (file_objs s ! h)) =
       on_disk s (path (file_objs s ! h)) @ rows \<and>
     writer_ok (acquisition_passes ticks s) \<and> output_file (acquisition_passes ticks s) = Some h \<and>
     pending (file_objs (acquisition_passes ticks s) ! h) = [] \<and>
     path (file_objs (acquisition_passes ticks s) ! h) = path (file_objs s ! h) \<and>
     is_recording (acquisition_passes ticks s) = is_recording s \<and>
     selected_channels (acquisition_passes ticks s) = selected_channels s"
  using assms
proof (induction ticks arbitrary: s)
  case Nil
  then show ?case by (intro exI [of _ "[]"]) simp
next
  case (Cons tick ticks)
  obtain t rd where tick: "tick = (t, rd)" by (cases tick)
  let ?s1 = "acquisition_pass rd t s"
  from pass_rows [OF Cons.prems, of rd t]
  obtain rows1 where 1: "list_all data_row rows1"
    "on_disk ?s1 (path (file_objs s ! h)) = on_disk s (path (file_objs s ! h)) @ rows1"
    "writer_ok ?s1" "output_file ?s1 = Some h" "pending (file_objs ?s1 ! h) = []"
    "path (file_objs ?s1 ! h) = path (file_objs s ! h)"
    "is_recording ?s1 = is_recording s" "selected_channels ?s1 = selected_channels s"
    by blast
  from Cons.IH [OF 1(3) 1(4) 1(5)]
  obtain rows2 where 2: "list_all data_row rows2"
    "on_disk (acquisition_passes ticks ?s1) (path (file_objs ?s1 ! h)) =
       on_disk ?s1 (path (file_objs ?s1 ! h)) @ rows2"
    "writer_ok (acquisition_passes ticks ?s1)" "output_file (acquisition_passes ticks ?s1) = Some h"
    "pending (file_objs (acquisition_passes ticks ?s1) ! h) = []"
    "path (file_objs (acquisition_passes ticks ?s1) ! h) = path (file_objs ?s1 ! h)"
    "is_recording (acquisition_passes ticks ?s1) = is_recording ?s1"
    "selected_channels (acquisition_passes ticks ?s1) = selected_channels ?s1"
    by blast
  show ?case
    using 1 2 by (intro exI [of _ "rows1 @ rows2"]) (simp add: tick)
qed

lemma start_with_sink_props:
  assumes "\<not> is_recording s" and "output_file s = Some h" and "writer_ok s"
  shows "\<exists>s'. toggle_recording now filename opens s = Returns s' \<and>
     writer_ok s' \<and> output_file s' = Some h \<and> pending (file_objs s' ! h) = [] \<and>
     path (file_objs s' ! h) = path (file_objs s ! h) \<and> is_recording s' \<and>
     selected_channels s' = selected_channels s \<and>
     on_disk s' (path (file_objs s ! h)) =
       on_disk s (path (file_objs s ! h)) @ pending (file_objs s ! h) @
         [header (selected_channels s)]"
proof -
  note w = writer_okD [OF assms(3) assms(2)]
  let ?s0 = "s\<lparr>start_time := now, sensor_time := [], sensor_voltages := []\<rparr>"
  let ?H = "header (selected_channels s)"
  let ?s' = "(file_flush h (file_write h ?H ?s0))
          \<lparr>is_recording := True, record_button := (''Stop Recording'', ''red'')\<rparr>"
  have h0: "h < length (file_objs ?s0)" using w by simp
  have t: "toggle_recording now filename opens s = Returns ?s'"
    using assms by (rule start_with_sink)
  have a: "on_disk ?s' (path (file_objs s ! h)) =
      on_disk s (path (file_objs s ! h)) @ pending (file_objs s ! h) @ [?H]"
    using flush_write_disk(1) [OF h0, of ?H] by (simp add: on_disk_def)
  have b: "pending (file_objs ?s' ! h) = []"
    using flush_write_disk(2) [OF h0, of ?H] by simp
  have c: "path (file_objs ?s' ! h) = path (file_objs s ! h)"
    using flush_write_disk(4) [OF h0, of ?H] by simp
  have d: "is_open h ?s'"
    using flush_write_disk(3) [OF h0, of ?H] w by (simp add: is_open_def)
  have e: "output_file ?s' = Some h" "csv_writer ?s' = Some h"
    "selected_channels ?s' = selected_channels s" "is_recording ?s'"
    using assms(2) w by (simp_all add: flush_write_frame)
  have f: "writer_ok ?s'" using d e by (simp add: writer_ok_def)
  from t a b c e f show ?thesis by blast
qed

subsection \<open>C2: a restart writes the header again\<close>

text \<open>
  C2 says that a recording stopped and started again, with no new browse, leaves
  only the first header in the file. \<^verbatim>\<open>toggle_recording\<close> writes the header on every
  start (line 333 is not guarded), so in the example session the file holds two
  header rows after start, stop, start.
\<close>

theorem restart_header_counterexample:
  "on_disk (sensor_run (\<lambda>t. None) (\<lambda>x. []) example_idle
      [ToggleRecording 10 [] False, ToggleRecording 20 [] False, ToggleRecording 30 [] False])
     ''out.csv'' =
   [[Text ''Time (s)'', Text ''Ch0 Voltage (V)''], [Text ''Time (s)'', Text ''Ch0 Voltage (V)'']]"
  by (simp add: sensor_run_def example_idle_eq file_defs)

text \<open>
  C2, amended. With an output file open and no new browse, start, stop and start
  again all return, and the file then holds what it held, a header, the data rows
  the sampler wrote in between, and a second header for the same channels.
\<close>

theorem restart_appends_header:
  assumes "writer_ok s" and "\<not> is_recording s" and "output_file s = Some h"
  shows "\<exists>s1 s2 s3 rows.
     toggle_recording t1 fn1 op1 s = Returns s1 \<and>
     toggle_recording t2 fn2 op2 (acquisition_passes ticks1 s1) = Returns s2 \<and>
     toggle_recording t3 fn3 op3 (acquisition_passes ticks2 s2) = Returns s3 \<and>
     is_recording s1 \<and> \<not> is_recording s2 \<and> is_recording s3 \<and>
     output_file s3 = Some h \<and> list_all data_row rows \<and>
     on_disk s3 (path (file_objs s ! h)) =
       on_disk s (path (file_objs s ! h)) @ pending (file_objs s ! h) @
         [header (selected_channels s)] @ rows @ [header (selected_channels s)]"
proof -
  let ?p = "path (file_objs s ! h)"
  let ?H = "header (selected_channels s)"
  from start_with_sink_props [OF assms(2) assms(3) assms(1), of t1 fn1 op1]
  obtain s1 where 1: "toggle_recording t1 fn1 op1 s = Returns s1"
    "writer_ok s1" "output_file s1 = Some h" "pending (file_objs s1 ! h) = []"
    "path (file_objs s1 ! h) = ?p" "is_recording s1" "selected_channels s1 = selected_channels s"
    "on_disk s1 ?p = on_disk s ?p @ pending (file_objs s ! h) @ [?H]"
    by blast
  let ?a = "acquisition_passes ticks1 s1"
  from passes_rows [OF 1(2) 1(3) 1(4), of ticks1]
  obtain rows1 where a: "list_all data_row rows1"
    "on_disk ?a (path (file_objs s1 ! h)) = on_disk s1 (path (file_objs s1 ! h)) @ rows1"
    "writer_ok ?a" "output_file ?a = Some h" "pending (file_objs ?a ! h) = []"
    "path (file_objs ?a ! h) = path (file_objs s1 ! h)"
    "is_recording ?a = is_recording s1" "selected_channels ?a = selected_channels s1"
    by blast
  let ?s2 = "?a\<lparr>is_recording := False, record_button := (''Start Recording'', ''green'')\<rparr>"
  have 2: "toggle_recording t2 fn2 op2 ?a = Returns ?s2"
    using a(7) 1(6) by (simp add: toggle_recording_def)
  have q: "writer_ok ?s2" "output_file ?s2 = Some h" "pending (file_objs ?s2 ! h) = []"
    "path (file_objs ?s2 ! h) = ?p" "\<not> is_recording ?s2"
    "selected_channels ?s2 = selected_channels s" "on_disk ?s2 ?p = on_disk ?a ?p"
    using a 1 by (simp_all add: writer_ok_def is_open_def on_disk_def)
  let ?b = "acquisition_passes ticks2 ?s2"
  from passes_rows [OF q(1) q(2) q(3), of ticks2]
  obtain rows2 where b: "list_all data_row rows2"
    "on_disk ?b (path (file_objs ?s2 ! h)) = on_disk ?s2 (path (file_objs ?s2 ! h)) @ rows2"
    "writer_ok ?b" "output_file ?b = Some h" "pending (file_objs ?b ! h) = []"
    "path (file_objs ?b ! h) = path (file_objs ?s2 ! h)"
    "is_recording ?b = is_recording ?s2" "selected_channels ?b = selected_channels ?s2"
    by blast
  have nb: "\<not> is_recording ?b" using b(7) by simp
  from start_with_sink_props [OF nb b(4) b(3), of t3 fn3 op3]
  obtain s3 where 3: "toggle_recording t3 fn3 op3 ?b = Returns s3"
    "output_file s3 = Some h" "is_recording s3"
    "on_disk s3 (path (file_objs ?b ! h)) =
       on_disk ?b (path (file_objs ?b ! h)) @ pending (file_objs ?b ! h) @
         [header (selected_channels ?b)]"
    by blast
  have pb: "path (file_objs ?b ! h) = ?p" using b(6) q(4) by simp
  have "on_disk s3 ?p = on_disk s ?p @ pending (file_objs s ! h) @ [?H] @ (rows1 @ rows2) @ [?H]"
    using 3(4) b(2) b(5) b(8) q(4) q(6) q(7) a(2) 1(5) 1(8) unfolding pb by simp
  moreover have "list_all data_row (rows1 @ rows2)" using a(1) b(1) by simp
  ultimately show ?thesis
    using 1(1) 1(6) 2 q(5) 3(1) 3(2) 3(3) by blast
qed

theorem restart_appends_header_witness:
  "writer_ok example_idle \<and> \<not> is_recording example_idle \<and> output_file example_idle = Some 0 \<and>
   on_disk
     (state_of (toggle_recording 30 [] False
       (acquisition_passes []
         (state_of (toggle_recording 20 [] False
           (acquisition_passes [(10.1234, \<lambda>k ch. Some 1.23456)]
             (state_of (toggle_recording 10 [] False example_idle))))))))
     ''out.csv'' =
   [[Text ''Time (s)'', Text ''Ch0 Voltage (V)''], [Num 0.123, Num 1.235],
    [Text ''Time (s)'', Text ''Ch0 Voltage (V)'']]"
proof -
  have h: "writer_ok example_idle" "\<not> is_recording example_idle" "output_file example_idle = Some 0"
    by (simp_all add: example_idle_eq init_sensor_def writer_ok_def is_open_def)
  have r: "py_round (10.1234 - 10) 3 = 0.123" "py_round 1.23456 3 = 1.235"
    by (simp_all add: py_round_def round_half_even_def Let_def)
  from restart_appends_header [OF h, of 10 "[]" False 20 "[]" False
      "[(10.1234, \<lambda>k ch. Some 1.23456)]" 30 "[]" False "[]"]
  obtain s1 s2 s3 rows where
    s: "toggle_recording 10 [] False example_idle = Returns s1"
       "toggle_recording 20 [] False
          (acquisition_passes [(10.1234, \<lambda>k ch. Some 1.23456)] s1) = Returns s2"
       "toggle_recording 30 [] False (acquisition_passes [] s2) = Returns s3"
    and d: "on_disk s3 (path (file_objs example_idle ! 0)) =
       on_disk example_idle (path (file_objs example_idle ! 0)) @
       pending (file_objs example_idle ! 0) @
         [header (selected_channels example_idle)] @ rows @
         [header (selected_channels example_idle)]"
    by blast
  have s1: "s1 = example_recording" using s(1) by (simp add: example_recording_def)
  have s3: "state_of (toggle_recording 30 [] False
       (acquisition_passes []
         (state_of (toggle_recording 20 [] False
           (acquisition_passes [(10.1234, \<lambda>k ch. Some 1.23456)]
             (state_of (toggle_recording 10 [] False example_idle))))))) = s3"
    using s by simp
  have "on_disk s3 ''out.csv'' =
   [[Text ''Time (s)'', Text ''Ch0 Voltage (V)''], [Num 0.123, Num 1.235],
    [Text ''Time (s)'', Text ''Ch0 Voltage (V)'']]"
    using s r unfolding s1
    by (auto simp add: example_recording_eq example_idle_eq file_defs acquisition_pass_def
        read_sensors_def)
  with h s3 show ?thesis by simp
qed

lemmas motor_defs = motor_run_def init_motor_def apply_direction_def stop_motor_def
  update_speed_def thread_step_def join_thread_def pulse_body_def step_interval_def
  history_append_def Let_def

subsection \<open>C7: steps per second in the status line\<close>

text \<open>
  C7 gives steps/sec as a function of the buffer alone. \<^verbatim>\<open>update_status\<close> computes
  it only under \<^verbatim>\<open>if stepper_running\<close>; \<^verbatim>\<open>step_history\<close> is never cleared, so after
  a stop the buffer still holds its timestamps and the status line shows 0 where
  the rule of the claim gives 10.
\<close>

theorem steps_per_sec_counterexample:
  "step_history stopped_after_pulses = [1, 1.1, 1.2] \<and>
   spec_steps_per_sec (step_history stopped_after_pulses) = 10 \<and>
   steps_per_sec_shown stopped_after_pulses = 0"
  by (simp add: stopped_after_pulses_def motor_defs spec_steps_per_sec_def
      steps_per_sec_shown_def update_status_motor_def)

text \<open>
  C7, amended. While the motor is running, the status refresh shows
  \<open>(count - 1) / (newest - oldest)\<close> when the buffer holds at least two timestamps
  and their span is positive, and 0 otherwise: 10.0 for the buffer
  \<open>[0.0, 0.1, 0.2]\<close>, 0 for a buffer with fewer than two entries. While the motor is
  not running it shows 0 whatever the buffer holds.
\<close>

theorem steps_per_sec_running:
  "steps_per_sec_shown m =
     (if stepper_running m \<and> 2 \<le> length (step_history m) \<and>
         0 < last (step_history m) - hd (step_history m)
      then (real (length (step_history m)) - 1) / (last (step_history m) - hd (step_history m))
      else 0) \<and>
   (stepper_running m \<and> step_history m = [0.0, 0.1, 0.2] \<longrightarrow> steps_per_sec_shown m = 10.0) \<and>
   (length (step_history m) < 2 \<longrightarrow> steps_per_sec_shown m = 0)"
  by (auto simp add: steps_per_sec_shown_def update_status_motor_def Let_def)

theorem steps_per_sec_running_witness:
  "stepper_running (init_motor\<lparr>stepper_running := True, step_history := [0.0, 0.1, 0.2]\<rparr>) \<and>
   step_history (init_motor\<lparr>stepper_running := True, step_history := [0.0, 0.1, 0.2]\<rparr>) =
     [0.0, 0.1, 0.2] \<and>
   steps_per_sec_shown (init_motor\<lparr>stepper_running := True, step_history := [0.0, 0.1, 0.2]\<rparr>) = 10 \<and>
   length (step_history (init_motor\<lparr>stepper_running := True, step_history := [5]\<rparr>)) < 2 \<and>
   steps_per_sec_shown (init_motor\<lparr>stepper_running := True, step_history := [5]\<rparr>) = 0"
  using
    steps_per_sec_running [of "init_motor\<lparr>stepper_running := True, step_history := [0.0, 0.1, 0.2]\<rparr>"]
    steps_per_sec_running [of "init_motor\<lparr>stepper_running := True, step_history := [5]\<rparr>"]
  by (simp add: init_motor_def)

subsection \<open>C3: two pulse loops after stop and restart\<close>

text \<open>
  C3. \<^verbatim>\<open>stop_motor\<close> clears the flag and does not join; \<^verbatim>\<open>apply_direction\<close> joins
  only under \<^verbatim>\<open>if stepper_running\<close>. In the run \<open>restart_after_stop\<close> the first
  thread is inside an iteration when the motor is stopped and restarted: the
  restart finds the flag clear, joins nothing, sets the flag and starts a second
  thread. Both loops are then active, and stay active as they go on running.
\<close>

theorem stop_then_restart_two_loops:
  "threads restart_after_stop = [InBody 1, AtWhile] \<and>
   pulse_thread restart_after_stop = Some 1 \<and>
   stepper_running restart_after_stop \<and>
   active_loops restart_after_stop = [0, 1] \<and>
   active_loops (foldl motor_event_step restart_after_stop
       [ThreadStep 0 2, ThreadStep 1 2, ThreadStep 0 3, ThreadStep 1 3]) = [0, 1]"
  by (simp add: restart_after_stop_def motor_defs active_loops_def upt_rec)

text \<open>
  What \<^verbatim>\<open>apply_direction\<close> does achieve: when the flag is set, the thread
  \<^verbatim>\<open>pulse_thread\<close> refers to has returned before the new one exists.
\<close>

lemma apply_direction_joins:
  assumes "stepper_running m" and "pulse_thread m = Some t" and "t < length (threads m)"
    and "selected_direction m \<noteq> ''Stop''"
  shows "threads (apply_direction m) ! t = Finished \<and>
     (0 < scaleSpeed m \<longrightarrow> pulse_thread (apply_direction m) = Some (length (threads m)) \<and>
        threads (apply_direction m) ! length (threads m) = AtWhile) \<and>
     (\<not> 0 < scaleSpeed m \<longrightarrow> \<not> stepper_running (apply_direction m))"
  using assms
  by (auto simp add: apply_direction_def join_thread_def Let_def pulse_body_def nth_append
      split: thread_pc.splits)

lemma one_loop_iff:
  "one_loop m \<longleftrightarrow>
     (\<forall>t<length (threads m). threads m ! t \<noteq> Finished \<longrightarrow>
        stepper_running m \<and> pulse_thread m = Some t)"
  by (auto simp add: one_loop_def list_all_iff)

lemma one_loop_init: "one_loop init_motor"
  by (simp add: one_loop_def init_motor_def)

lemma pulse_body_frame:
  "threads (pulse_body n m) = threads m" "stepper_running (pulse_body n m) = stepper_running m"
  "pulse_thread (pulse_body n m) = pulse_thread m"
  "selected_direction (pulse_body n m) = selected_direction m"
  "scaleSpeed (pulse_body n m) = scaleSpeed m"
  by (simp_all add: pulse_body_def)

lemma one_loop_other:
  assumes "one_loop m" and "t < length (threads m)" and "threads m ! t \<noteq> Finished"
    and "u < length (threads m)" and "u \<noteq> t"
  shows "threads m ! u = Finished"
proof (rule ccontr)
  assume "threads m ! u \<noteq> Finished"
  with assms(1,4) have "pulse_thread m = Some u" by (simp add: one_loop_iff)
  moreover from assms(1,2,3) have "pulse_thread m = Some t" by (simp add: one_loop_iff)
  ultimately show False using assms(5) by simp
qed

lemma one_loop_thread_step: "one_loop m \<Longrightarrow> one_loop (thread_step t now m)"
proof -
  assume a: "one_loop m"
  show ?thesis
  proof (cases "t < length (threads m)")
    case False
    with a show ?thesis by (simp add: thread_step_def)
  next
    case True
    show ?thesis
    proof (cases "threads m ! t")
      case AtWhile
      with a True show ?thesis
        using one_loop_other [OF a True]
        by (auto simp add: one_loop_iff thread_step_def nth_list_update)
    next
      case (InBody n)
      with a True show ?thesis
        using one_loop_other [OF a True]
        by (auto simp add: one_loop_iff thread_step_def pulse_body_frame nth_list_update)
    next
      case Finished
      with a True show ?thesis by (simp add: thread_step_def)
    qed
  qed
qed

lemma one_loop_apply_direction:
  assumes "one_loop m" and "selected_direction m \<noteq> ''Stop''"
  shows "one_loop (apply_direction m)"
proof -
  let ?m1 = "if stepper_running m then
                        (let m0 = m\<lparr>stepper_running := False\<rparr>
                         in case pulse_thread m0 of
                              Some t \<Rightarrow> join_thread t m0
                            | None \<Rightarrow> m0)
                      else m"
  have quiet: "\<forall>t<length (threads ?m1). threads ?m1 ! t = Finished"
  proof (cases "stepper_running m")
    case False
    with assms(1) show ?thesis by (auto simp add: one_loop_iff)
  next
    case True
    show ?thesis
    proof (cases "pulse_thread m")
      case None
      with assms(1) True show ?thesis by (auto simp add: one_loop_iff)
    next
      case (Some p)
      have rest: "\<forall>u<length (threads m). u \<noteq> p \<longrightarrow> threads m ! u = Finished"
        using assms(1) Some by (auto simp add: one_loop_iff)
      show ?thesis
        using True Some rest
        by (auto simp add: join_thread_def pulse_body_frame nth_list_update Let_def
            split: thread_pc.splits)
    qed
  qed
  show ?thesis
    using quiet assms(2)
    unfolding apply_direction_def Let_def one_loop_iff
    by (auto simp add: nth_append)
qed

lemma one_loop_at_most_one: "one_loop m \<Longrightarrow> length (active_loops m) \<le> 1"
proof -
  assume a: "one_loop m"
  have d: "distinct (active_loops m)" by (simp add: active_loops_def)
  have "\<forall>t\<in>set (active_loops m). pulse_thread m = Some t"
    using a by (auto simp add: one_loop_iff active_loops_def)
  then have "set (active_loops m) \<subseteq> set_option (pulse_thread m)" by auto
  moreover have "card (set_option (pulse_thread m)) \<le> 1" by (cases "pulse_thread m") simp_all
  ultimately have "card (set (active_loops m)) \<le> 1"
    by (meson card_mono le_trans option.set_finite)
  with d show ?thesis by (simp add: distinct_card)
qed

lemma one_loop_event:
  "one_loop m \<Longrightarrow> \<not> calls_stop_motor m ev \<Longrightarrow> one_loop (motor_event_step m ev)"
  by (cases ev)
    (simp_all add: one_loop_thread_step one_loop_apply_direction,
     simp_all add: one_loop_iff update_speed_def)

lemma one_loop_events:
  "one_loop m \<Longrightarrow> stop_free m events \<Longrightarrow> one_loop (foldl motor_event_step m events)"
  by (induction events arbitrary: m) (simp_all add: one_loop_event)

text \<open>
  As long as \<^verbatim>\<open>stop_motor\<close> is never called (no emergency stop, no
  \<^verbatim>\<open>apply_direction\<close> with the direction \<^verbatim>\<open>Stop\<close>), at most one pulse loop is active
  after any sequence of operator actions and thread steps.
\<close>

theorem stop_free_single_loop:
  "stop_free init_motor events \<Longrightarrow> length (active_loops (motor_run events)) \<le> 1"
  unfolding motor_run_def
  by (intro one_loop_at_most_one one_loop_events one_loop_init)

theorem stop_free_single_loop_witness:
  "stop_free init_motor
     [MoveScale 50, SelectDirection ''Forward'', ApplyDirection, ThreadStep 0 1,
      SelectDirection ''Reverse'', ApplyDirection] \<and>
   length (active_loops (motor_run
     [MoveScale 50, SelectDirection ''Forward'', ApplyDirection, ThreadStep 0 1,
      SelectDirection ''Reverse'', ApplyDirection])) \<le> 1 \<and>
   threads (motor_run
     [MoveScale 50, SelectDirection ''Forward'', ApplyDirection, ThreadStep 0 1,
      SelectDirection ''Reverse'', ApplyDirection]) = [Finished, AtWhile]"
proof -
  have f: "stop_free init_motor
     [MoveScale 50, SelectDirection ''Forward'', ApplyDirection, ThreadStep 0 1,
      SelectDirection ''Reverse'', ApplyDirection]"
    by (simp add: motor_defs)
  from stop_free_single_loop [OF f] f show ?thesis
    by (simp add: motor_defs)
qed

subsection \<open>The writer follows the output file\<close>

text \<open>
  The hypothesis \<open>writer_ok\<close> of the theorems above holds throughout a session, up
  to \<^verbatim>\<open>on_closing\<close>: each callback and each sampler pass keeps it.
\<close>

lemma writer_ok_iff:
  "writer_ok s \<longleftrightarrow> (\<forall>h. output_file s = Some h \<longrightarrow> csv_writer s = Some h \<and> is_open h s)"
  by (simp add: writer_ok_def split: option.splits)

lemma writer_ok_init: "writer_ok (init_sensor t0 d)"
  by (simp add: writer_ok_iff init_sensor_def)

lemma writer_ok_flush_write:
  assumes "writer_ok s" and "output_file s = Some h"
  shows "writer_ok (file_flush h (file_write h r s))"
  using writer_okD [OF assms] flush_write_disk(3) [of h s r] assms(2)
  by (simp add: writer_ok_iff flush_write_frame)

lemma writer_ok_frame:
  assumes "writer_ok s" and "output_file s' = output_file s" and "csv_writer s' = csv_writer s"
    and "file_objs s' = file_objs s"
  shows "writer_ok s'"
  using assms by (simp add: writer_ok_iff is_open_def)

lemma writer_ok_browse:
  assumes "writer_ok s"
  shows "writer_ok (browse_output_file filename opens s)"
proof (cases "filename = []")
  case True
  with assms show ?thesis by (simp add: browse_output_file_def)
next
  case False
  show ?thesis
  proof (cases opens)
    case False
    with \<open>filename \<noteq> []\<close> show ?thesis
      by (simp add: browse_output_file_def browse_handler_def writer_ok_iff Let_def)
  next
    case True
    with \<open>filename \<noteq> []\<close> show ?thesis
      by (simp add: browse_output_file_def browse_handler_def writer_ok_iff Let_def
          file_open_def writerow_def flush_output_def is_open_def file_write_def file_flush_def)
  qed
qed

lemma writer_ok_toggle:
  assumes "writer_ok s"
  shows "writer_ok (state_of (toggle_recording now filename opens s))"
proof (cases "is_recording s")
  case True
  with assms show ?thesis
    by (simp add: toggle_recording_def writer_ok_iff is_open_def)
next
  case False
  let ?s1 = "if output_file s = None then browse_output_file filename opens s else s"
  have w1: "writer_ok ?s1" using assms by (simp add: writer_ok_browse)
  show ?thesis
  proof (cases "output_file ?s1")
    case None
    with False w1 show ?thesis by (auto simp add: toggle_recording_def Let_def)
  next
    case (Some h)
    let ?s3 = "?s1\<lparr>start_time := now, sensor_time := [], sensor_voltages := []\<rparr>"
    have w3: "writer_ok ?s3" "output_file ?s3 = Some h"
      using w1 Some by (simp_all add: writer_ok_iff is_open_def)
    note d = writer_okD [OF w3]
    have "writer_ok (file_flush h (file_write h (header (selected_channels ?s3)) ?s3))"
      using w3 by (rule writer_ok_flush_write)
    then have "writer_ok ((file_flush h (file_write h (header (selected_channels ?s3)) ?s3))
       \<lparr>is_recording := True, record_button := (''Stop Recording'', ''red'')\<rparr>)"
      by (simp add: writer_ok_iff is_open_def)
    moreover have "toggle_recording now filename opens s =
      Returns ((file_flush h (file_write h (header (selected_channels ?s3)) ?s3))
       \<lparr>is_recording := True, record_button := (''Stop Recording'', ''red'')\<rparr>)"
      using False Some d
      by (auto simp add: toggle_recording_def Let_def writerow_def flush_output_def
          is_open_def file_write_def)
    ultimately show ?thesis by simp
  qed
qed

lemma writer_ok_pass:
  assumes "writer_ok s"
  shows "writer_ok (acquisition_pass rd t s)"
proof (cases "output_file s")
  case None
  then show ?thesis by (simp add: acquisition_pass_def Let_def writer_ok_iff)
next
  case (Some h)
  note d = writer_okD [OF assms Some]
  let ?s2 = "s\<lparr>sensor_time := sensor_time s @ [py_round (t - start_time s) 3],
           sensor_voltages := sensor_voltages s @ [read_sensors rd (selected_channels s)]\<rparr>"
  have w2: "writer_ok ?s2" "output_file ?s2 = Some h"
    using assms Some by (simp_all add: writer_ok_iff is_open_def)
  have "writer_ok ((file_flush h (file_write h r ?s2))\<lparr>last_reading_time := t\<rparr>)" for r
    using writer_ok_flush_write [OF w2, of r] by (simp add: writer_ok_iff is_open_def)
  moreover have "writer_ok (?s2\<lparr>last_reading_time := t\<rparr>)"
    using w2 by (simp add: writer_ok_iff is_open_def)
  ultimately show ?thesis
    using assms Some d
    by (simp add: acquisition_pass_def Let_def writerow_def flush_output_def is_open_def
        file_write_def)
qed

lemma writer_ok_event:
  assumes "writer_ok s"
  shows "writer_ok (sensor_event_step py_float py_str s ev)"
proof (cases ev)
  case (ClickChannel i)
  have "writer_ok (state_of (update_selected_channels u))" if "writer_ok u" for u
    using that by (simp add: update_selected_channels_def Let_def writer_ok_iff is_open_def)
  moreover have "writer_ok (s\<lparr>channel_vars := v\<rparr>)" for v
    using assms by (simp add: writer_ok_iff is_open_def)
  ultimately show ?thesis using assms ClickChannel by simp
next
  case UpdateInterval
  with assms show ?thesis
    by (simp add: update_acquisition_interval_def Let_def writer_ok_iff is_open_def
        split: option.splits)
qed (use assms in \<open>simp_all add: writer_ok_toggle writer_ok_browse writer_ok_pass\<close>,
     simp_all add: writer_ok_iff is_open_def clear_plot_data_def)

lemma writer_ok_run:
  "writer_ok s \<Longrightarrow> writer_ok (sensor_run py_float py_str s events)"
  unfolding sensor_run_def
  by (induction events arbitrary: s) (simp_all add: writer_ok_event)

text \<open>
  In every state that the sensor callbacks and the sampler reach from the
  initial one, an output file that is set is open and is the file \<^verbatim>\<open>csv_writer\<close>
  writes to.
\<close>

theorem writer_ok_reachable:
  "writer_ok (sensor_run py_float py_str (init_sensor t0 d) events)"
  by (intro writer_ok_run writer_ok_init)

end
